theory Spec2Isabelle
  imports Main
begin

section \<open>Data model of attachedfiltersmodel.cpp\<close>

text \<open>
  A \<open>QmlMetadata\<close> object carries the fields the model reads: the service identifier
  used to construct the engine filter, the object name used to tag it, and the two
  classification flags. A descriptor in the UI list is a pointer to such an object and
  may be \<open>NULL\<close>: it is a \<open>QmlMetadata option\<close>.
\<close>

record QmlMetadata =
  mlt_service :: string
  objectName :: string
  needsGPU :: bool
  isAudio :: bool

text \<open>
  An engine filter with the four properties the model reads or writes:
  \<open>mlt_service\<close>, \<open>disable\<close>, \<open>_loader\<close> and \<open>shotcut:filter\<close>.
\<close>

record Filter =
  service :: string
  disable :: int
  loader :: int
  shotcut_filter :: "string option"

text \<open>
  The host item: whether the wrapper holds a service (\<open>is_valid\<close>), and its filter chain
  in engine storage order.
\<close>

record Producer =
  is_valid :: bool
  filters :: "Filter list"

text \<open>The notifications and other outward effects of the model, in emission order.\<close>

datatype event =
    ModelAboutToBeReset
  | ModelReset
  | ReadyChanged
  | RowsAboutToBeInserted int int
  | RowsInserted
  | RowsAboutToBeRemoved int int
  | RowsRemoved
  | RowsAboutToBeMoved int int int
  | RowsMoved
  | Changed
  | DataChanged int int
  | Warning
  | Pause

text \<open>
  The members of \<open>AttachedFiltersModel\<close>. \<open>m_producer\<close> is a scoped pointer: \<open>None\<close> is
  the null pointer it holds before the first \<open>reset\<close>.
\<close>

record AttachedFiltersModel =
  m_producer :: "Producer option"
  m_metaList :: "QmlMetadata option list"
  m_mltIndexMap :: "int list"
  m_dropRow :: int
  emitted :: "event list"

text \<open>
  What stops a call: a null pointer dereferenced, a list indexed out of range. Rows and
  engine indices are C++ \<open>int\<close>s; they are positions in lists and are modelled as
  unbounded integers.
\<close>

datatype error = NullPointer | IndexOutOfRange

section \<open>The category sort policy\<close>

text \<open>
  \<open>sortIsLess\<close>, lines 27-46: the branches in the order of the source; a branch whose
  inner \<open>if\<close> fails falls through to the final \<open>return false\<close>.
\<close>

fun sortIsLess :: "QmlMetadata option \<Rightarrow> QmlMetadata option \<Rightarrow> bool" where
  "sortIsLess None None = False"
| "sortIsLess None (Some rhs) = (if needsGPU rhs then True else False)"
| "sortIsLess (Some lhs) None = (if isAudio lhs then True else False)"
| "sortIsLess (Some lhs) (Some rhs) =
     (if needsGPU rhs \<and> \<not> needsGPU lhs then True
      else if \<not> isAudio rhs \<and> isAudio lhs then True
      else False)"

text \<open>
  The five rules of section 4.2 of the specification, in its words and order, to be
  compared with \<open>sortIsLess\<close>: whether \<open>a\<close> is less than \<open>b\<close>.
\<close>

definition absent :: "QmlMetadata option \<Rightarrow> bool" where
  "absent a = (a = None)"

definition sortIsLess_spec :: "QmlMetadata option \<Rightarrow> QmlMetadata option \<Rightarrow> bool" where
  "sortIsLess_spec a b =
     (if absent a \<and> absent b then False
      else if absent a then needsGPU (the b)
      else if absent b then isAudio (the a)
      else if needsGPU (the b) \<and> \<not> needsGPU (the a) then True
      else if isAudio (the a) \<and> \<not> isAudio (the b) then True
      else False)"

text \<open>
  The category of a descriptor as two flags; an absent descriptor counts as an ordinary
  video filter (source comment, line 29).
\<close>

definition category :: "QmlMetadata option \<Rightarrow> bool \<times> bool" where
  "category a = (case a of None \<Rightarrow> (False, False) | Some m \<Rightarrow> (needsGPU m, isAudio m))"

section \<open>Qt containers and indices\<close>

text \<open>
  \<open>QList::operator[]\<close> requires a valid index position; outside it the call is an error.
\<close>

definition qat :: "'a list \<Rightarrow> int \<Rightarrow> error + 'a" where
  "qat xs i = (if 0 \<le> i \<and> i < int (length xs) then Inr (xs ! nat i) else Inl IndexOutOfRange)"

text \<open>
  \<open>QList::insert(i, value)\<close>: prepends when \<open>i \<le> 0\<close>, appends when \<open>i \<ge> size()\<close>.
\<close>

definition qinsert :: "int \<Rightarrow> 'a \<Rightarrow> 'a list \<Rightarrow> 'a list" where
  "qinsert i x xs =
     (if i \<le> 0 then x # xs
      else if int (length xs) \<le> i then xs @ [x]
      else take (nat i) xs @ x # drop (nat i) xs)"

text \<open>\<open>QList::removeAt(i)\<close>: does nothing unless \<open>0 \<le> i < size()\<close>.\<close>

definition qremoveAt :: "int \<Rightarrow> 'a list \<Rightarrow> 'a list" where
  "qremoveAt i xs =
     (if 0 \<le> i \<and> i < int (length xs) then take (nat i) xs @ drop (Suc (nat i)) xs else xs)"

text \<open>
  \<open>QList::move(from, to)\<close>: both positions must be valid; the item leaves \<open>from\<close> and
  ends at position \<open>to\<close>.
\<close>

definition qmove :: "int \<Rightarrow> int \<Rightarrow> 'a list \<Rightarrow> error + 'a list" where
  "qmove from to xs =
     (if 0 \<le> from \<and> from < int (length xs) \<and> 0 \<le> to \<and> to < int (length xs)
      then Inr (qinsert to (xs ! nat from) (qremoveAt from xs))
      else Inl IndexOutOfRange)"

text \<open>
  A \<open>QModelIndex\<close> as far as the model looks at it: row and column. \<open>QModelIndex()\<close>
  is the invalid index; an index made by \<open>createIndex\<close> is valid when neither is negative.
\<close>

datatype QModelIndex = QModelIndex (index_row: int) (index_column: int)

definition rootIndex :: QModelIndex where
  "rootIndex = QModelIndex (- 1) (- 1)"

definition createIndex :: "int \<Rightarrow> int \<Rightarrow> QModelIndex" where
  "createIndex r c = QModelIndex r c"

definition isValid :: "QModelIndex \<Rightarrow> bool" where
  "isValid ix = (0 \<le> index_row ix \<and> 0 \<le> index_column ix)"

text \<open>
  \<open>QAbstractItemModel::beginMoveRows\<close> within one parent (the only case \<open>moveRows\<close> lets
  through): the framework refuses a move of the rows \<open>sourceFirst..sourceLast\<close> to a
  destination child inside \<open>sourceFirst..sourceLast + 1\<close>, which would move nothing.
\<close>

definition beginMoveRows :: "int \<Rightarrow> int \<Rightarrow> int \<Rightarrow> bool" where
  "beginMoveRows sourceFirst sourceLast destinationChild =
     (\<not> (sourceFirst \<le> destinationChild \<and> destinationChild \<le> sourceLast + 1))"

definition CheckStateRole :: int where
  "CheckStateRole = 10"

section \<open>The media engine\<close>

text \<open>
  Modelled from the spec: the engine's filter-chain storage, a library outside this
  source file, of which only the calls are here. Section 6 lists its operations on the
  ordered chain of a host item: count, get-by-position, attach (append), detach, move.
  A handle returned by get-by-position is the position of the filter in the chain
  (\<open>None\<close> is the null handle); a wrapper that holds no service has no chain to act on.
\<close>

definition filter_count :: "Producer \<Rightarrow> int" where
  "filter_count p = (if is_valid p then int (length (filters p)) else 0)"

definition producer_filter :: "Producer \<Rightarrow> int \<Rightarrow> nat option" where
  "producer_filter p i =
     (if is_valid p \<and> 0 \<le> i \<and> i < int (length (filters p)) then Some (nat i) else None)"

definition attach :: "Producer \<Rightarrow> Filter \<Rightarrow> Producer" where
  "attach p f = (if is_valid p then p\<lparr>filters := filters p @ [f]\<rparr> else p)"

definition detach :: "Producer \<Rightarrow> nat \<Rightarrow> Producer" where
  "detach p h =
     (if is_valid p then p\<lparr>filters := take h (filters p) @ drop (Suc h) (filters p)\<rparr> else p)"

text \<open>
  Modelled from the spec: the engine move, section 4.4: "removing from source position
  and inserting at destination, shifting intervening entries". The spec leaves positions
  outside the chain open; here they are clamped to the ends of the chain, and a move
  whose two positions coincide changes nothing.
\<close>

definition clamp_position :: "int \<Rightarrow> int \<Rightarrow> int" where
  "clamp_position n i = (if i < 0 then 0 else if n \<le> i then n - 1 else i)"

definition move_filter :: "Producer \<Rightarrow> int \<Rightarrow> int \<Rightarrow> Producer" where
  "move_filter p from to =
     (if is_valid p then
        let n = int (length (filters p));
            from' = clamp_position n from;
            to' = clamp_position n to
        in if from' \<noteq> to' \<and> 1 < n
           then p\<lparr>filters := qinsert to' (filters p ! nat from') (qremoveAt from' (filters p))\<rparr>
           else p
      else p)"

text \<open>Reading and writing the \<open>disable\<close> property through a handle.\<close>

definition get_disable :: "Producer \<Rightarrow> nat \<Rightarrow> int" where
  "get_disable p h = disable (filters p ! h)"

definition set_disable :: "Producer \<Rightarrow> nat \<Rightarrow> int \<Rightarrow> Producer" where
  "set_disable p h v = p\<lparr>filters := (filters p)[h := (filters p ! h)\<lparr>disable := v\<rparr>]\<rparr>"

text \<open>
  The global controller \<open>MLT\<close> as the model uses it: the current producer (possibly
  null), whether it is a playlist, and which service identifiers the engine can build a
  filter from.
\<close>

record MltController =
  mlt_current :: "Producer option"
  mlt_isPlaylist :: bool
  mlt_can_construct :: "string \<Rightarrow> bool"

section \<open>The operations of AttachedFiltersModel\<close>

text \<open>
  The three loops "Adjust MLT index map for indices that just changed" run over the
  positions \<open>0 .. count - 1\<close> of the map and rewrite each entry in place; \<open>body\<close> is what
  one iteration does to the entry.
\<close>

function index_loop :: "(int \<Rightarrow> int) \<Rightarrow> nat \<Rightarrow> int list \<Rightarrow> int list" where
  "index_loop body i m =
     (if i < length m then index_loop body (Suc i) (m[i := body (m ! i)]) else m)"
  by pat_completeness auto
termination
  by (relation "measure (\<lambda>(body, i, m). length m - i)") auto

declare index_loop.simps [simp del]

text \<open>
  The backward scan of \<open>add\<close>, lines 238-244. The argument \<open>n\<close> is the number of entries
  not yet looked at: the loop variable is \<open>i = n - 1\<close>, and the scan ends with the
  initial \<open>insertIndex = 0\<close> when none is left.
\<close>

fun add_scan :: "QmlMetadata option list \<Rightarrow> QmlMetadata \<Rightarrow> nat \<Rightarrow> int" where
  "add_scan l meta 0 = 0"
| "add_scan l meta (Suc i) =
     (if \<not> sortIsLess (l ! i) (Some meta) then int i + 1 else add_scan l meta i)"

text \<open>
  The backward scan of \<open>reset\<close>, lines 330-338. The argument is the current value of
  \<open>newIndex\<close>; the loop variable is \<open>j = newIndex - 1\<close>.
\<close>

fun reset_scan :: "QmlMetadata option list \<Rightarrow> QmlMetadata option \<Rightarrow> nat \<Rightarrow> int" where
  "reset_scan l newMeta 0 = 0"
| "reset_scan l newMeta (Suc j) =
     (if sortIsLess (l ! j) newMeta then reset_scan l newMeta j else int (Suc j))"


text \<open>\<open>getFilter\<close>, lines 59-66. The result is a handle into the chain of \<open>m_producer\<close>.\<close>

definition getFilter :: "AttachedFiltersModel \<Rightarrow> int \<Rightarrow> error + nat option" where
  "getFilter s row =
     (case m_producer s of
        None \<Rightarrow> Inr None
      | Some p \<Rightarrow>
          if is_valid p \<and> row < int (length (m_mltIndexMap s)) then
            (case qat (m_mltIndexMap s) row of
               Inl e \<Rightarrow> Inl e
             | Inr mltIndex \<Rightarrow> Inr (producer_filter p mltIndex))
          else Inr None)"

text \<open>
  \<open>setData\<close>, lines 141-154; \<open>row\<close> is \<open>index.row()\<close>. With the check-state role this is
  the checkbox toggle.
\<close>

definition setData :: "AttachedFiltersModel \<Rightarrow> int \<Rightarrow> int \<Rightarrow> error + (bool \<times> AttachedFiltersModel)" where
  "setData s row role =
     (if role = CheckStateRole then
        (case getFilter s row of
           Inl e \<Rightarrow> Inl e
         | Inr None \<Rightarrow> Inr (True, s)
         | Inr (Some h) \<Rightarrow>
             (case m_producer s of
                None \<Rightarrow> Inr (True, s)
              | Some p \<Rightarrow>
                  Inr (True,
                    s\<lparr>m_producer := Some (set_disable p h (if get_disable p h = 0 then 1 else 0)),
                      emitted := emitted s @ [Changed, DataChanged row row]\<rparr>)))
      else Inr (False, s))"


text \<open>\<open>moveRows\<close>, lines 190-225.\<close>

definition moveRows ::
  "AttachedFiltersModel \<Rightarrow> QModelIndex \<Rightarrow> int \<Rightarrow> int \<Rightarrow> QModelIndex \<Rightarrow> int \<Rightarrow>
     error + (bool \<times> AttachedFiltersModel)" where
  "moveRows s sourceParent sourceRow count destinationParent destinationRow =
     (case m_producer s of
        None \<Rightarrow> Inr (False, s)
      | Some p \<Rightarrow>
          if \<not> is_valid p \<or> sourceParent \<noteq> destinationParent \<or> count \<noteq> 1 then Inr (False, s)
          else if isValid (createIndex sourceRow 0) \<and> isValid (createIndex destinationRow 0) then
            if beginMoveRows sourceRow sourceRow destinationRow then
              let dst = (if destinationRow > sourceRow then destinationRow - 1 else destinationRow) in
              (case qat (m_mltIndexMap s) sourceRow of
                 Inl e \<Rightarrow> Inl e
               | Inr mltSrcIndex \<Rightarrow>
                  (case qat (m_mltIndexMap s) dst of
                     Inl e \<Rightarrow> Inl e
                   | Inr mltDstIndex \<Rightarrow>
                      let p' = move_filter p mltSrcIndex mltDstIndex;
                          m1 = qremoveAt sourceRow (m_mltIndexMap s);
                          m2 = index_loop
                                 (\<lambda>v. let v' = (if v > mltSrcIndex then v - 1 else v)
                                      in if v' \<ge> mltDstIndex then v' + 1 else v') 0 m1;
                          m3 = qinsert dst mltDstIndex m2
                      in (case qmove sourceRow dst (m_metaList s) of
                            Inl e \<Rightarrow> Inl e
                          | Inr l' \<Rightarrow>
                              Inr (True,
                                s\<lparr>m_producer := Some p', m_metaList := l', m_mltIndexMap := m3,
                                  emitted := emitted s @
                                    [RowsAboutToBeMoved sourceRow sourceRow destinationRow,
                                     RowsMoved]\<rparr>))))
            else Inr (False, s)
          else Inr (False, s))"

text \<open>\<open>removeRows\<close>, lines 179-188.\<close>

definition removeRows ::
  "AttachedFiltersModel \<Rightarrow> int \<Rightarrow> int \<Rightarrow> QModelIndex \<Rightarrow> error + (bool \<times> AttachedFiltersModel)" where
  "removeRows s row count parent =
     (case m_producer s of
        None \<Rightarrow> Inr (False, s)
      | Some p \<Rightarrow>
          if is_valid p \<and> m_dropRow s \<ge> 0 \<and> row \<noteq> m_dropRow s then
            (case moveRows s parent row 1 parent (m_dropRow s) of
               Inl e \<Rightarrow> Inl e
             | Inr (result, s') \<Rightarrow> Inr (result, s'\<lparr>m_dropRow := - 1\<rparr>))
          else Inr (False, s))"

text \<open>
  \<open>add\<close>, lines 227-273. The argument \<open>meta\<close> is dereferenced on the first line, so it
  is a metadata object, not a nullable descriptor. The new engine filter is valid when
  the engine can construct the service; it is tagged with the object name when there is
  one.
\<close>

definition new_filter :: "QmlMetadata \<Rightarrow> Filter" where
  "new_filter meta =
     \<lparr>service = mlt_service meta, disable = 0, loader = 0,
      shotcut_filter = (if objectName meta \<noteq> [] then Some (objectName meta) else None)\<rparr>"

definition add_mltIndex :: "int list \<Rightarrow> int \<Rightarrow> error + int" where
  "add_mltIndex m insertIndex =
     (if length m = 0 then Inr (int (length m))
      else if insertIndex = 0 then qat m 0
      else (case qat m (insertIndex - 1) of Inl e \<Rightarrow> Inl e | Inr v \<Rightarrow> Inr (v + 1)))"

definition add :: "MltController \<Rightarrow> AttachedFiltersModel \<Rightarrow> QmlMetadata \<Rightarrow> error + (int \<times> AttachedFiltersModel)" where
  "add MLT s meta =
     (if mlt_can_construct MLT (mlt_service meta) then
        let insertIndex = add_scan (m_metaList s) meta (length (m_metaList s)) in
        (case add_mltIndex (m_mltIndexMap s) insertIndex of
           Inl e \<Rightarrow> Inl e
         | Inr mltIndex \<Rightarrow>
            (case m_producer s of
               None \<Rightarrow> Inl NullPointer
             | Some p \<Rightarrow>
                let p1 = attach p (new_filter meta);
                    p2 = move_filter p1 (filter_count p1 - 1) mltIndex;
                    m1 = index_loop (\<lambda>v. if v \<ge> mltIndex then v + 1 else v) 0 (m_mltIndexMap s)
                in Inr (insertIndex,
                     s\<lparr>m_producer := Some p2,
                       m_metaList := qinsert insertIndex (Some meta) (m_metaList s),
                       m_mltIndexMap := qinsert insertIndex mltIndex m1,
                       emitted := emitted s @
                         [RowsAboutToBeInserted insertIndex insertIndex, Pause, RowsInserted,
                          Changed]\<rparr>)))
      else Inr (- 1, s\<lparr>emitted := emitted s @ [Warning]\<rparr>))"

text \<open>\<open>remove\<close>, lines 275-297.\<close>

definition remove :: "AttachedFiltersModel \<Rightarrow> int \<Rightarrow> error + AttachedFiltersModel" where
  "remove s row =
     (if row \<ge> int (length (m_metaList s)) then Inr (s\<lparr>emitted := emitted s @ [Warning]\<rparr>)
      else
        (case qat (m_mltIndexMap s) row of
           Inl e \<Rightarrow> Inl e
         | Inr mltIndex \<Rightarrow>
            (case m_producer s of
               None \<Rightarrow> Inl NullPointer
             | Some p \<Rightarrow>
                (case producer_filter p mltIndex of
                   None \<Rightarrow> Inl NullPointer
                 | Some h \<Rightarrow>
                    let p' = detach p h;
                        m1 = qremoveAt row (m_mltIndexMap s);
                        m2 = index_loop (\<lambda>v. if v > mltIndex then v - 1 else v) 0 m1
                    in Inr (s\<lparr>m_producer := Some p',
                              m_metaList := qremoveAt row (m_metaList s),
                              m_mltIndexMap := m2,
                              emitted := emitted s @
                                [RowsAboutToBeRemoved row row, RowsRemoved, Changed]\<rparr>)))))"

text \<open>\<open>move\<close>, lines 299-313.\<close>

definition move :: "AttachedFiltersModel \<Rightarrow> int \<Rightarrow> int \<Rightarrow> error + (bool \<times> AttachedFiltersModel)" where
  "move s fromRow toRow =
     (if fromRow < 0 \<or> toRow < 0 then Inr (False, s)
      else moveRows s rootIndex fromRow 1 rootIndex (if toRow > fromRow then toRow + 1 else toRow))"

text \<open>
  \<open>reset\<close>, lines 315-348. The loop over the engine chain, with the lists built so far;
  \<open>metadataForService\<close> is the classification service of the filter controller.
\<close>

function reset_loop ::
  "(Filter \<Rightarrow> QmlMetadata option) \<Rightarrow> Producer \<Rightarrow> nat \<Rightarrow> nat \<Rightarrow>
     QmlMetadata option list \<times> int list \<Rightarrow> QmlMetadata option list \<times> int list" where
  "reset_loop metadataForService p i count (l, m) =
     (if i < count then
        (case producer_filter p (int i) of
           None \<Rightarrow> reset_loop metadataForService p (Suc i) count (l, m)
         | Some h \<Rightarrow>
            if loader (filters p ! h) = 0 then
              let newMeta = metadataForService (filters p ! h);
                  newIndex = reset_scan l newMeta (length l)
              in reset_loop metadataForService p (Suc i) count
                   (qinsert newIndex newMeta l, qinsert newIndex (int i) m)
            else reset_loop metadataForService p (Suc i) count (l, m))
      else (l, m))"
  by pat_completeness auto
termination
  by (relation "measure (\<lambda>(mf, p, i, count, lm). count - i)") auto

declare reset_loop.simps [simp del]

definition invalid_producer :: Producer where
  "invalid_producer = \<lparr>is_valid = False, filters = []\<rparr>"

definition reset ::
  "MltController \<Rightarrow> (Filter \<Rightarrow> QmlMetadata option) \<Rightarrow> AttachedFiltersModel \<Rightarrow>
     Producer option \<Rightarrow> AttachedFiltersModel" where
  "reset MLT metadataForService s producer =
     (let s1 = s\<lparr>emitted := emitted s @ [ModelAboutToBeReset]\<rparr>;
          given = (case producer of Some q \<Rightarrow> Some q | None \<Rightarrow> mlt_current MLT);
          p = (case given of Some q \<Rightarrow> q | None \<Rightarrow> invalid_producer);
          s2 = s1\<lparr>m_producer := Some p, m_metaList := [], m_mltIndexMap := []\<rparr>
      in if mlt_isPlaylist MLT then s2
         else
           let (l, m) = (if is_valid p
                         then reset_loop metadataForService p 0 (nat (filter_count p)) ([], [])
                         else ([], []))
           in s2\<lparr>m_metaList := l, m_mltIndexMap := m,
                 emitted := emitted s2 @ [ModelReset, ReadyChanged]\<rparr>)"

section \<open>A concrete scenario\<close>

text \<open>
  Three ordinary video filters \<open>A\<close>, \<open>B\<close>, \<open>C\<close> at the engine positions 0, 1, 2, shown
  in that order; a GPU and an audio descriptor; an engine that can construct every
  service.
\<close>

definition videoA :: QmlMetadata where
  "videoA = \<lparr>mlt_service = ''A'', objectName = ''a'', needsGPU = False, isAudio = False\<rparr>"

definition videoB :: QmlMetadata where
  "videoB = \<lparr>mlt_service = ''B'', objectName = ''b'', needsGPU = False, isAudio = False\<rparr>"

definition videoC :: QmlMetadata where
  "videoC = \<lparr>mlt_service = ''C'', objectName = ''c'', needsGPU = False, isAudio = False\<rparr>"

definition gpuMeta :: QmlMetadata where
  "gpuMeta = \<lparr>mlt_service = ''G'', objectName = ''g'', needsGPU = True, isAudio = False\<rparr>"

definition audioMeta :: QmlMetadata where
  "audioMeta = \<lparr>mlt_service = ''S'', objectName = [], needsGPU = False, isAudio = True\<rparr>"

definition scenario_ABC :: AttachedFiltersModel where
  "scenario_ABC =
     \<lparr>m_producer = Some \<lparr>is_valid = True,
                           filters = [new_filter videoA, new_filter videoB, new_filter videoC]\<rparr>,
      m_metaList = [Some videoA, Some videoB, Some videoC],
      m_mltIndexMap = [0, 1, 2],
      m_dropRow = - 1,
      emitted = []\<rparr>"

definition engine_any :: MltController where
  "engine_any = \<lparr>mlt_current = None, mlt_isPlaylist = False, mlt_can_construct = (\<lambda>svc. True)\<rparr>"

definition engine_none :: MltController where
  "engine_none =
     \<lparr>mlt_current = None, mlt_isPlaylist = False, mlt_can_construct = (\<lambda>svc. False)\<rparr>"



section \<open>Facts about the containers and the loops\<close>

lemma index_loop_eq:
  "i \<le> length m \<Longrightarrow> index_loop body i m = take i m @ map body (drop i m)"
proof (induction body i m rule: index_loop.induct)
  case (1 body i m)
  show ?case
  proof (cases "i < length m")
    case True
    let ?m' = "m[i := body (m ! i)]"
    have "index_loop body i m = index_loop body (Suc i) ?m'"
      using True by (subst index_loop.simps) simp
    also have "\<dots> = take (Suc i) ?m' @ map body (drop (Suc i) ?m')"
      using True by (intro "1.IH") simp_all
    also have "take (Suc i) ?m' = take i m @ [body (m ! i)]"
      using True by (simp add: take_Suc_conv_app_nth)
    also have "drop (Suc i) ?m' = drop (Suc i) m"
      by simp
    also have "(take i m @ [body (m ! i)]) @ map body (drop (Suc i) m)
                 = take i m @ map body (m ! i # drop (Suc i) m)"
      by simp
    also have "m ! i # drop (Suc i) m = drop i m"
      using True by (rule Cons_nth_drop_Suc)
    finally show ?thesis .
  next
    case False
    then show ?thesis using 1(2) by (subst index_loop.simps) simp
  qed
qed

lemma index_loop_map: "index_loop body 0 m = map body m"
  by (simp add: index_loop_eq)

lemma qinsert_conv: "qinsert i x xs = take (nat i) xs @ x # drop (nat i) xs"
  by (simp add: qinsert_def)

lemma length_qinsert: "length (qinsert i x xs) = Suc (length xs)"
  by (simp add: qinsert_def)

lemma length_qremoveAt:
  "length (qremoveAt i xs) =
     (if 0 \<le> i \<and> i < int (length xs) then length xs - 1 else length xs)"
  by (auto simp: qremoveAt_def)

lemma length_qmove: "qmove from to xs = Inr ys \<Longrightarrow> length ys = length xs"
  by (auto simp: qmove_def length_qinsert length_qremoveAt split: if_splits)

lemma add_lengths:
  assumes "length (m_metaList s) = length (m_mltIndexMap s)" "add MLT s meta = Inr (r, s')"
  shows "length (m_metaList s') = length (m_mltIndexMap s')"
  using assms
  by (auto simp: add_def Let_def index_loop_map length_qinsert
      split: if_splits sum.splits option.splits)

lemma remove_lengths:
  assumes "length (m_metaList s) = length (m_mltIndexMap s)" "remove s row = Inr s'"
  shows "length (m_metaList s') = length (m_mltIndexMap s')"
  using assms
  by (auto simp: remove_def Let_def index_loop_map length_qremoveAt
      split: if_splits sum.splits option.splits)

lemma moveRows_lengths:
  assumes "length (m_metaList s) = length (m_mltIndexMap s)"
    "moveRows s sp sourceRow count dp destinationRow = Inr (b, s')"
  shows "length (m_metaList s') = length (m_mltIndexMap s')"
  using assms
  by (auto simp: moveRows_def Let_def index_loop_map length_qinsert length_qremoveAt qat_def
      dest!: length_qmove split: if_splits sum.splits option.splits)

lemma move_lengths:
  assumes "length (m_metaList s) = length (m_mltIndexMap s)"
    "move s fromRow toRow = Inr (b, s')"
  shows "length (m_metaList s') = length (m_mltIndexMap s')"
  using assms moveRows_lengths[OF assms(1)]
  by (auto simp: move_def split: if_splits)

lemma removeRows_lengths:
  assumes "length (m_metaList s) = length (m_mltIndexMap s)"
    "removeRows s row count parent = Inr (b, s')"
  shows "length (m_metaList s') = length (m_mltIndexMap s')"
  using assms moveRows_lengths[OF assms(1)]
  by (auto simp: removeRows_def split: if_splits sum.splits option.splits prod.splits)

lemma scenario_add: "\<exists>s'. add engine_any scenario_ABC gpuMeta = Inr (0, s')"
  by (simp add: add_def scenario_ABC_def engine_any_def gpuMeta_def videoA_def videoB_def
      videoC_def add_mltIndex_def qat_def Let_def numeral_3_eq_3)

lemma scenario_remove: "\<exists>s'. remove scenario_ABC 1 = Inr s'"
  by (simp add: remove_def scenario_ABC_def qat_def producer_filter_def Let_def)

lemma scenario_move: "\<exists>s'. move scenario_ABC 0 2 = Inr (True, s')"
  by (simp add: move_def moveRows_def scenario_ABC_def qat_def qmove_def rootIndex_def
      isValid_def createIndex_def beginMoveRows_def Let_def)

section \<open>The two lists keep the same length\<close>

text \<open>
  Claim C1. Starting from any state in which the UI descriptor list and the engine index
  map have the same length, every single \<open>add\<close>, \<open>remove\<close> or move (\<open>moveRows\<close>, the
  convenience \<open>move\<close>, and the drag-and-drop \<open>removeRows\<close> that resolves into a move)
  that returns leaves the two lists with the same length.
\<close>

theorem lengths_agree_after_operation:
  assumes "length (m_metaList s) = length (m_mltIndexMap s)"
  shows "(\<forall>r s'. add MLT s meta = Inr (r, s') \<longrightarrow>
            length (m_metaList s') = length (m_mltIndexMap s'))
       \<and> (\<forall>s'. remove s row = Inr s' \<longrightarrow>
            length (m_metaList s') = length (m_mltIndexMap s'))
       \<and> (\<forall>b s'. moveRows s sourceParent sourceRow n destinationParent destinationRow
                     = Inr (b, s') \<longrightarrow>
            length (m_metaList s') = length (m_mltIndexMap s'))
       \<and> (\<forall>b s'. move s fromRow toRow = Inr (b, s') \<longrightarrow>
            length (m_metaList s') = length (m_mltIndexMap s'))
       \<and> (\<forall>b s'. removeRows s dragRow n' parent = Inr (b, s') \<longrightarrow>
            length (m_metaList s') = length (m_mltIndexMap s'))"
proof (intro conjI allI impI)
  fix r s' assume "add MLT s meta = Inr (r, s')"
  then show "length (m_metaList s') = length (m_mltIndexMap s')"
    by (rule add_lengths[OF assms])
next
  fix s' assume "remove s row = Inr s'"
  then show "length (m_metaList s') = length (m_mltIndexMap s')"
    by (rule remove_lengths[OF assms])
next
  fix b s'
  assume "moveRows s sourceParent sourceRow n destinationParent destinationRow = Inr (b, s')"
  then show "length (m_metaList s') = length (m_mltIndexMap s')"
    by (rule moveRows_lengths[OF assms])
next
  fix b s' assume "move s fromRow toRow = Inr (b, s')"
  then show "length (m_metaList s') = length (m_mltIndexMap s')"
    by (rule move_lengths[OF assms])
next
  fix b s' assume "removeRows s dragRow n' parent = Inr (b, s')"
  then show "length (m_metaList s') = length (m_mltIndexMap s')"
    by (rule removeRows_lengths[OF assms])
qed

theorem lengths_agree_after_operation_witness:
  "length (m_metaList scenario_ABC) = length (m_mltIndexMap scenario_ABC)
   \<and> (\<exists>s'. add engine_any scenario_ABC gpuMeta = Inr (0, s')
          \<and> length (m_metaList s') = length (m_mltIndexMap s'))
   \<and> (\<exists>s'. remove scenario_ABC 1 = Inr s'
          \<and> length (m_metaList s') = length (m_mltIndexMap s'))
   \<and> (\<exists>s'. move scenario_ABC 0 2 = Inr (True, s')
          \<and> length (m_metaList s') = length (m_mltIndexMap s'))"
proof -
  have h: "length (m_metaList scenario_ABC) = length (m_mltIndexMap scenario_ABC)"
    by (simp add: scenario_ABC_def)
  note t = lengths_agree_after_operation [OF h]
  from scenario_add obtain s1 where a: "add engine_any scenario_ABC gpuMeta = Inr (0, s1)"
    by blast
  from scenario_remove obtain s2 where r: "remove scenario_ABC 1 = Inr s2"
    by blast
  from scenario_move obtain s3 where m: "move scenario_ABC 0 2 = Inr (True, s3)"
    by blast
  from t[where MLT=engine_any and meta=gpuMeta] a
  have "length (m_metaList s1) = length (m_mltIndexMap s1)" by blast
  moreover from t[where row=1] r
  have "length (m_metaList s2) = length (m_mltIndexMap s2)" by blast
  moreover from t[where fromRow=0 and toRow=2] m
  have "length (m_metaList s3) = length (m_mltIndexMap s3)" by blast
  ultimately show ?thesis using h a r m by blast
qed

section \<open>The sort policy against its specification\<close>

text \<open>
  Claim C2. For every pair of descriptors, \<open>sortIsLess\<close> returns what the five rules of
  the specification say: both absent, not less; only \<open>a\<close> absent, less iff \<open>b\<close> needs the
  GPU; only \<open>b\<close> absent, less iff \<open>a\<close> is audio; both present, less iff \<open>b\<close> needs the GPU
  and \<open>a\<close> does not, or else \<open>a\<close> is audio and \<open>b\<close> is not; otherwise not less.
\<close>

theorem sortIsLess_follows_the_five_rules: "sortIsLess a b = sortIsLess_spec a b"
  by (cases a; cases b) (simp_all add: sortIsLess_spec_def absent_def)

section \<open>Irreflexivity and stable insertion\<close>

lemma add_scan_after_equal:
  "n \<le> length l \<Longrightarrow> i < n \<Longrightarrow> \<not> sortIsLess (l ! i) (Some meta) \<Longrightarrow>
   int i < add_scan l meta n"
  by (induction n) (auto simp: less_Suc_eq)

lemma reset_scan_after_equal:
  "n \<le> length l \<Longrightarrow> i < n \<Longrightarrow> \<not> sortIsLess (l ! i) newMeta \<Longrightarrow>
   int i < reset_scan l newMeta n"
  by (induction n) (auto simp: less_Suc_eq)

lemma add_scan_reset_scan: "add_scan l meta n = reset_scan l (Some meta) n"
  by (induction n) auto

lemma same_category_not_less: "category a = category b \<Longrightarrow> \<not> sortIsLess a b"
  by (cases a; cases b) (auto simp: category_def)

text \<open>
  Claim C10. \<open>sortIsLess\<close> is irreflexive, also at the absent descriptor. Hence two
  descriptors of the same category are never less than each other, and the backward
  scans of \<open>add\<close> and \<open>reset\<close> place a new entry after every existing entry of its own
  category: ties keep the order in which the entries arrived.
\<close>

theorem sortIsLess_irreflexive:
  "\<not> sortIsLess a a
   \<and> (category a = category b \<longrightarrow> \<not> sortIsLess a b \<and> \<not> sortIsLess b a)
   \<and> (\<forall>i. i < length l \<and> category (l ! i) = category (Some meta) \<longrightarrow>
          int i < add_scan l meta (length l))
   \<and> (\<forall>i. i < length l \<and> category (l ! i) = category newMeta \<longrightarrow>
          int i < reset_scan l newMeta (length l))"
  using same_category_not_less[of a a] same_category_not_less[of a b]
    same_category_not_less[of b a]
    add_scan_after_equal[of "length l" l _ meta]
    reset_scan_after_equal[of "length l" l _ newMeta]
    same_category_not_less
  by (metis order_refl)

theorem sortIsLess_irreflexive_witness:
  "\<not> sortIsLess None None
   \<and> category None = category (Some videoA)
   \<and> \<not> sortIsLess None (Some videoA) \<and> \<not> sortIsLess (Some videoA) None
   \<and> (1::nat) < length [Some gpuMeta, Some videoA, Some audioMeta]
   \<and> category ([Some gpuMeta, Some videoA, Some audioMeta] ! 1) = category (Some videoB)
   \<and> int 1 < add_scan [Some gpuMeta, Some videoA, Some audioMeta] videoB
                 (length [Some gpuMeta, Some videoA, Some audioMeta])
   \<and> category ([Some gpuMeta, Some videoA, Some audioMeta] ! 1) = category None
   \<and> int 1 < reset_scan [Some gpuMeta, Some videoA, Some audioMeta] None
                 (length [Some gpuMeta, Some videoA, Some audioMeta])"
proof -
  let ?l = "[Some gpuMeta, Some videoA, Some audioMeta]"
  note t = sortIsLess_irreflexive [of None "Some videoA" ?l videoB None]
  have c1: "category None = category (Some videoA)"
    by (simp add: category_def videoA_def)
  have c2: "category (?l ! 1) = category (Some videoB)"
    by (simp add: category_def videoA_def videoB_def)
  have c3: "category (?l ! 1) = category None"
    by (simp add: category_def videoA_def)
  have len: "(1::nat) < length ?l"
    by simp
  from t have "\<not> sortIsLess None None" by blast
  moreover from t c1 have "\<not> sortIsLess None (Some videoA) \<and> \<not> sortIsLess (Some videoA) None"
    by blast
  moreover from t len c2 have "int 1 < add_scan ?l videoB (length ?l)"
    by blast
  moreover from t len c3 have "int 1 < reset_scan ?l None (length ?l)"
    by blast
  ultimately show ?thesis using c1 c2 c3 len by blast
qed

section \<open>The notifications of reset\<close>

lemma reset_emits_bracket_otherwise:
  "\<not> mlt_isPlaylist MLT \<Longrightarrow>
   emitted (reset MLT metadataForService s producer)
     = emitted s @ [ModelAboutToBeReset, ModelReset, ReadyChanged]"
  by (simp add: reset_def Let_def split: prod.splits)

text \<open>
  Claim C5 says that every call to \<open>reset\<close> emits the "model about to reset" / "model
  reset" pair, also when the host context is a playlist. The code returns at line 323,
  between \<open>beginResetModel()\<close> and \<open>endResetModel()\<close>: for a playlist the only
  notification emitted is the opening one.
\<close>

theorem reset_playlist_skips_end_notification:
  "emitted (reset (MLT\<lparr>mlt_isPlaylist := True\<rparr>) metadataForService s producer)
     = emitted s @ [ModelAboutToBeReset]"
  by (simp add: reset_def Let_def)

section \<open>Rows out of range in remove\<close>

lemma remove_row_too_large:
  "int (length (m_metaList s)) \<le> row \<Longrightarrow>
   remove s row = Inr (s\<lparr>emitted := emitted s @ [Warning]\<rparr>)"
  by (simp add: remove_def)

text \<open>
  Claim C6 says that \<open>remove\<close> is a logged no-op for every row outside
  \<open>[0, length of the UI list)\<close>. The guard at line 277 only tests \<open>row >= count\<close>: a
  negative row passes it and indexes the map out of range at line 283.
\<close>

theorem remove_negative_row_reads_out_of_range: "remove s (- 1) = Inl IndexOutOfRange"
  by (simp add: remove_def qat_def)

section \<open>Where add inserts\<close>

lemma add_scan_bounds: "0 \<le> add_scan l meta n \<and> add_scan l meta n \<le> int n"
  by (induction n) auto

lemma add_scan_above:
  "nat (add_scan l meta n) \<le> j \<Longrightarrow> j < n \<Longrightarrow> sortIsLess (l ! j) (Some meta)"
proof (induction n)
  case 0
  then show ?case by simp
next
  case (Suc n)
  show ?case
  proof (cases "sortIsLess (l ! n) (Some meta)")
    case True
    then show ?thesis using Suc by (cases "j = n") auto
  next
    case False
    then show ?thesis using Suc.prems by simp
  qed
qed

lemma add_scan_below:
  "0 < add_scan l meta n \<Longrightarrow> \<not> sortIsLess (l ! (nat (add_scan l meta n) - 1)) (Some meta)"
proof (induction n)
  case 0
  then show ?case by simp
next
  case (Suc n)
  have "nat (int n + 1) - 1 = n" by simp
  then show ?case using Suc by (cases "sortIsLess (l ! n) (Some meta)") simp_all
qed

lemma add_mltIndex_ok:
  assumes "0 \<le> k" "k \<le> int (length m)"
  shows "add_mltIndex m k =
           Inr (if m = [] then 0 else if k = 0 then m ! 0 else m ! (nat k - 1) + 1)"
proof -
  have "nat (k - 1) = nat k - 1" by simp
  then show ?thesis using assms
    by (auto simp: add_mltIndex_def qat_def)
qed

lemma add_fails:
  "\<not> mlt_can_construct MLT (mlt_service meta) \<Longrightarrow>
   add MLT s meta = Inr (- 1, s\<lparr>emitted := emitted s @ [Warning]\<rparr>)"
  by (simp add: add_def)

lemma add_succeeds:
  assumes "mlt_can_construct MLT (mlt_service meta)" "m_producer s = Some p"
    "length (m_metaList s) = length (m_mltIndexMap s)"
  defines "k \<equiv> nat (add_scan (m_metaList s) meta (length (m_metaList s)))"
  defines "mltIndex \<equiv> (if m_mltIndexMap s = [] then 0
                        else if k = 0 then m_mltIndexMap s ! 0
                        else m_mltIndexMap s ! (k - 1) + 1)"
  shows "add MLT s meta =
     Inr (int k,
       s\<lparr>m_producer := Some (move_filter (attach p (new_filter meta))
                               (filter_count (attach p (new_filter meta)) - 1) mltIndex),
         m_metaList := take k (m_metaList s) @ Some meta # drop k (m_metaList s),
         m_mltIndexMap :=
           take k (map (\<lambda>v. if mltIndex \<le> v then v + 1 else v) (m_mltIndexMap s))
             @ mltIndex # drop k (map (\<lambda>v. if mltIndex \<le> v then v + 1 else v) (m_mltIndexMap s)),
         emitted := emitted s @ [RowsAboutToBeInserted (int k) (int k), Pause, RowsInserted, Changed]\<rparr>)"
proof -
  let ?ins = "add_scan (m_metaList s) meta (length (m_metaList s))"
  have b: "0 \<le> ?ins" "?ins \<le> int (length (m_mltIndexMap s))"
    using add_scan_bounds[of "m_metaList s" meta "length (m_metaList s)"] assms(3) by auto
  have ik: "?ins = int k" using b by (simp add: k_def)
  have k0: "(?ins = 0) = (k = 0)" using ik by simp
  have mi: "add_mltIndex (m_mltIndexMap s) ?ins = Inr mltIndex"
    using add_mltIndex_ok[OF b] by (simp add: mltIndex_def k_def[symmetric] k0)
  show ?thesis
    using assms(1,2) mi
    by (simp add: add_def Let_def index_loop_map qinsert_conv ik)
qed


lemma scenario_add_audio:
  "add engine_any scenario_ABC audioMeta =
     Inr (3, scenario_ABC
       \<lparr>m_producer := Some \<lparr>is_valid = True,
           filters = [new_filter videoA, new_filter videoB, new_filter videoC, new_filter audioMeta]\<rparr>,
        m_metaList := [Some videoA, Some videoB, Some videoC, Some audioMeta],
        m_mltIndexMap := [0, 1, 2, 3],
        emitted := [RowsAboutToBeInserted 3 3, Pause, RowsInserted, Changed]\<rparr>)"
  by (simp add: add_def scenario_ABC_def engine_any_def audioMeta_def videoA_def videoB_def
      videoC_def add_mltIndex_def qat_def Let_def numeral_3_eq_3 index_loop_map qinsert_def
      attach_def move_filter_def filter_count_def clamp_position_def)

text \<open>
  Claim C3. When the engine cannot construct the filter, \<open>add\<close> returns \<open>-1\<close> (and only
  logs). When it can, \<open>add\<close> returns the UI position \<open>k\<close> found by the backward scan:
  every entry from \<open>k\<close> on is \<open>sortIsLess\<close> than the new metadata and the entry before
  \<open>k\<close>, if any, is not, so \<open>k\<close> is one past the last entry that is not less, and \<open>0\<close>
  when there is none. The target engine index is \<open>0\<close> for an empty map, the engine index
  at UI position \<open>0\<close> when \<open>k = 0\<close>, and otherwise the engine index of the entry before
  \<open>k\<close> plus one; the descriptor and this index are inserted at position \<open>k\<close>, every
  map entry at or above the target moves up by one, and the new filter is attached and
  moved to the target.
\<close>

theorem add_inserts_by_backward_scan:
  "(\<not> mlt_can_construct MLT (mlt_service meta) \<longrightarrow>
       add MLT s meta = Inr (- 1, s\<lparr>emitted := emitted s @ [Warning]\<rparr>))
   \<and> (mlt_can_construct MLT (mlt_service meta) \<and> m_producer s = Some p
        \<and> length (m_metaList s) = length (m_mltIndexMap s) \<longrightarrow>
       (\<exists>k mltIndex s'.
          add MLT s meta = Inr (int k, s')
          \<and> k \<le> length (m_metaList s)
          \<and> (\<forall>j. k \<le> j \<and> j < length (m_metaList s) \<longrightarrow>
                 sortIsLess (m_metaList s ! j) (Some meta))
          \<and> (0 < k \<longrightarrow> \<not> sortIsLess (m_metaList s ! (k - 1)) (Some meta))
          \<and> mltIndex = (if m_mltIndexMap s = [] then 0
                         else if k = 0 then m_mltIndexMap s ! 0
                         else m_mltIndexMap s ! (k - 1) + 1)
          \<and> m_metaList s' = take k (m_metaList s) @ Some meta # drop k (m_metaList s)
          \<and> m_mltIndexMap s' =
               take k (map (\<lambda>v. if mltIndex \<le> v then v + 1 else v) (m_mltIndexMap s))
                 @ mltIndex
                 # drop k (map (\<lambda>v. if mltIndex \<le> v then v + 1 else v) (m_mltIndexMap s))
          \<and> m_producer s' =
               Some (move_filter (attach p (new_filter meta))
                       (filter_count (attach p (new_filter meta)) - 1) mltIndex)))"
proof (intro conjI impI)
  assume "\<not> mlt_can_construct MLT (mlt_service meta)"
  then show "add MLT s meta = Inr (- 1, s\<lparr>emitted := emitted s @ [Warning]\<rparr>)"
    by (rule add_fails)
next
  assume h: "mlt_can_construct MLT (mlt_service meta) \<and> m_producer s = Some p
        \<and> length (m_metaList s) = length (m_mltIndexMap s)"
  let ?l = "m_metaList s"
  let ?ins = "add_scan ?l meta (length ?l)"
  let ?k = "nat ?ins"
  have b: "0 \<le> ?ins" "?ins \<le> int (length ?l)"
    using add_scan_bounds[of ?l meta "length ?l"] by auto
  have above: "\<forall>j. ?k \<le> j \<and> j < length ?l \<longrightarrow> sortIsLess (?l ! j) (Some meta)"
    using add_scan_above[of ?l meta "length ?l"] by blast
  have below: "0 < ?k \<longrightarrow> \<not> sortIsLess (?l ! (?k - 1)) (Some meta)"
    using add_scan_below[of ?l meta "length ?l"] by simp
  have kle: "?k \<le> length ?l" using b by simp
  from h have a: "mlt_can_construct MLT (mlt_service meta)" "m_producer s = Some p"
    "length (m_metaList s) = length (m_mltIndexMap s)" by simp_all
  note r = add_succeeds[OF a]
  show "\<exists>k mltIndex s'.
          add MLT s meta = Inr (int k, s')
          \<and> k \<le> length (m_metaList s)
          \<and> (\<forall>j. k \<le> j \<and> j < length (m_metaList s) \<longrightarrow>
                 sortIsLess (m_metaList s ! j) (Some meta))
          \<and> (0 < k \<longrightarrow> \<not> sortIsLess (m_metaList s ! (k - 1)) (Some meta))
          \<and> mltIndex = (if m_mltIndexMap s = [] then 0
                         else if k = 0 then m_mltIndexMap s ! 0
                         else m_mltIndexMap s ! (k - 1) + 1)
          \<and> m_metaList s' = take k (m_metaList s) @ Some meta # drop k (m_metaList s)
          \<and> m_mltIndexMap s' =
               take k (map (\<lambda>v. if mltIndex \<le> v then v + 1 else v) (m_mltIndexMap s))
                 @ mltIndex
                 # drop k (map (\<lambda>v. if mltIndex \<le> v then v + 1 else v) (m_mltIndexMap s))
          \<and> m_producer s' =
               Some (move_filter (attach p (new_filter meta))
                       (filter_count (attach p (new_filter meta)) - 1) mltIndex)"
    apply (rule exI[where x = ?k])
    apply (rule exI)
    apply (rule exI)
    apply (rule conjI, rule r)
    apply (rule conjI, rule kle)
    apply (rule conjI, rule above)
    apply (rule conjI, rule below)
    apply (rule conjI, rule refl)
    apply simp
    done
qed

theorem add_inserts_by_backward_scan_witness:
  "\<not> mlt_can_construct engine_none (mlt_service audioMeta)
   \<and> add engine_none scenario_ABC audioMeta
       = Inr (- 1, scenario_ABC\<lparr>emitted := emitted scenario_ABC @ [Warning]\<rparr>)
   \<and> mlt_can_construct engine_any (mlt_service audioMeta)
   \<and> m_producer scenario_ABC
       = Some \<lparr>is_valid = True, filters = [new_filter videoA, new_filter videoB, new_filter videoC]\<rparr>
   \<and> length (m_metaList scenario_ABC) = length (m_mltIndexMap scenario_ABC)
   \<and> (\<exists>s'. add engine_any scenario_ABC audioMeta = Inr (3, s')
          \<and> m_metaList s' = [Some videoA, Some videoB, Some videoC, Some audioMeta]
          \<and> m_mltIndexMap s' = [0, 1, 2, 3])
   \<and> (\<exists>k mltIndex s'.
          add engine_any scenario_ABC audioMeta = Inr (int k, s')
          \<and> k \<le> length (m_metaList scenario_ABC)
          \<and> mltIndex = (if m_mltIndexMap scenario_ABC = [] then 0
                         else if k = 0 then m_mltIndexMap scenario_ABC ! 0
                         else m_mltIndexMap scenario_ABC ! (k - 1) + 1)
          \<and> m_metaList s' = take k (m_metaList scenario_ABC) @ Some audioMeta
                                # drop k (m_metaList scenario_ABC))"
proof -
  let ?p = "\<lparr>is_valid = True, filters = [new_filter videoA, new_filter videoB, new_filter videoC]\<rparr>"
  have n: "\<not> mlt_can_construct engine_none (mlt_service audioMeta)"
    by (simp add: engine_none_def)
  have y: "mlt_can_construct engine_any (mlt_service audioMeta)"
    by (simp add: engine_any_def)
  have pr: "m_producer scenario_ABC = Some ?p"
    by (simp add: scenario_ABC_def)
  have len: "length (m_metaList scenario_ABC) = length (m_mltIndexMap scenario_ABC)"
    by (simp add: scenario_ABC_def)
  from add_inserts_by_backward_scan [of engine_none audioMeta scenario_ABC] n
  have f: "add engine_none scenario_ABC audioMeta
       = Inr (- 1, scenario_ABC\<lparr>emitted := emitted scenario_ABC @ [Warning]\<rparr>)"
    by blast
  from add_inserts_by_backward_scan [of engine_any audioMeta scenario_ABC ?p] y pr len
  have g: "\<exists>k mltIndex s'.
          add engine_any scenario_ABC audioMeta = Inr (int k, s')
          \<and> k \<le> length (m_metaList scenario_ABC)
          \<and> mltIndex = (if m_mltIndexMap scenario_ABC = [] then 0
                         else if k = 0 then m_mltIndexMap scenario_ABC ! 0
                         else m_mltIndexMap scenario_ABC ! (k - 1) + 1)
          \<and> m_metaList s' = take k (m_metaList scenario_ABC) @ Some audioMeta
                                # drop k (m_metaList scenario_ABC)"
    by blast
  have e: "\<exists>s'. add engine_any scenario_ABC audioMeta = Inr (3, s')
          \<and> m_metaList s' = [Some videoA, Some videoB, Some videoC, Some audioMeta]
          \<and> m_mltIndexMap s' = [0, 1, 2, 3]"
    by (simp add: scenario_add_audio)
  show ?thesis using n f y pr len e g by blast
qed

section \<open>add followed by remove\<close>









section \<open>The index map after a move\<close>

lemma moveRows_valid:
  assumes "m_producer s = Some p" "is_valid p"
    "length (m_metaList s) = length (m_mltIndexMap s)"
    "i < length (m_mltIndexMap s)" "j < length (m_mltIndexMap s)" "i \<noteq> j"
  shows "moveRows s parent (int i) 1 parent (if i < j then int j + 1 else int j) =
     Inr (True,
       s\<lparr>m_producer := Some (move_filter p (m_mltIndexMap s ! i) (m_mltIndexMap s ! j)),
         m_metaList := take j (take i (m_metaList s) @ drop (Suc i) (m_metaList s))
                         @ m_metaList s ! i
                         # drop j (take i (m_metaList s) @ drop (Suc i) (m_metaList s)),
         m_mltIndexMap :=
           take j (map (\<lambda>e. let e' = (if m_mltIndexMap s ! i < e then e - 1 else e)
                              in if m_mltIndexMap s ! j \<le> e' then e' + 1 else e')
                    (take i (m_mltIndexMap s) @ drop (Suc i) (m_mltIndexMap s)))
             @ m_mltIndexMap s ! j
             # drop j (map (\<lambda>e. let e' = (if m_mltIndexMap s ! i < e then e - 1 else e)
                                in if m_mltIndexMap s ! j \<le> e' then e' + 1 else e')
                        (take i (m_mltIndexMap s) @ drop (Suc i) (m_mltIndexMap s))),
         emitted := emitted s @
           [RowsAboutToBeMoved (int i) (int i) (if i < j then int j + 1 else int j), RowsMoved]\<rparr>)"
proof -
  let ?d = "if i < j then int j + 1 else int j"
  have dst: "(if ?d > int i then ?d - 1 else ?d) = int j"
    using assms(6) by auto
  have bm: "beginMoveRows (int i) (int i) ?d"
    using assms(6) by (auto simp: beginMoveRows_def)
  have iv: "isValid (createIndex (int i) 0)" "isValid (createIndex ?d 0)"
    by (auto simp: isValid_def createIndex_def)
  have q1: "qat (m_mltIndexMap s) (int i) = Inr (m_mltIndexMap s ! i)"
    using assms(4) by (simp add: qat_def)
  have q2: "qat (m_mltIndexMap s) (int j) = Inr (m_mltIndexMap s ! j)"
    using assms(5) by (simp add: qat_def)
  have r1: "qremoveAt (int i) (m_mltIndexMap s)
              = take i (m_mltIndexMap s) @ drop (Suc i) (m_mltIndexMap s)"
    using assms(4) by (simp add: qremoveAt_def)
  have r2: "qremoveAt (int i) (m_metaList s)
              = take i (m_metaList s) @ drop (Suc i) (m_metaList s)"
    using assms(3,4) by (simp add: qremoveAt_def)
  have qm: "qmove (int i) (int j) (m_metaList s)
              = Inr (take j (take i (m_metaList s) @ drop (Suc i) (m_metaList s))
                         @ m_metaList s ! i
                         # drop j (take i (m_metaList s) @ drop (Suc i) (m_metaList s)))"
    using assms(3,4,5) by (simp add: qmove_def r2 qinsert_conv)
  show ?thesis
    unfolding moveRows_def dst
    using assms(1,2) bm iv
    by (simp only: q1 q2 r1 qm Let_def index_loop_map qinsert_conv nat_int
          option.case sum.case simp_thms if_True if_False)
qed

lemma move_as_moveRows:
  "move s (int i) (int j) = moveRows s rootIndex (int i) 1 rootIndex (if i < j then int j + 1 else int j)"
  by (simp add: move_def)

lemma scenario_move_BCA:
  "move scenario_ABC 0 2 =
     Inr (True, scenario_ABC
       \<lparr>m_producer := Some \<lparr>is_valid = True,
           filters = [new_filter videoB, new_filter videoC, new_filter videoA]\<rparr>,
        m_metaList := [Some videoB, Some videoC, Some videoA],
        m_mltIndexMap := [0, 1, 2],
        emitted := [RowsAboutToBeMoved 0 0 3, RowsMoved]\<rparr>)"
  by (simp add: move_def moveRows_def scenario_ABC_def qat_def qmove_def rootIndex_def
      isValid_def createIndex_def beginMoveRows_def Let_def index_loop_map qinsert_def
      qremoveAt_def move_filter_def clamp_position_def)

lemma scenario_moveRows_destination_child:
  "moveRows scenario_ABC rootIndex 0 1 rootIndex 2 =
     Inr (True, scenario_ABC
       \<lparr>m_producer := Some \<lparr>is_valid = True,
           filters = [new_filter videoB, new_filter videoA, new_filter videoC]\<rparr>,
        m_metaList := [Some videoB, Some videoA, Some videoC],
        m_mltIndexMap := [0, 1, 2],
        emitted := [RowsAboutToBeMoved 0 0 2, RowsMoved]\<rparr>)"
  by (simp add: moveRows_def scenario_ABC_def qat_def qmove_def rootIndex_def
      isValid_def createIndex_def beginMoveRows_def Let_def index_loop_map qinsert_def
      qremoveAt_def move_filter_def clamp_position_def)

text \<open>
  The recomputed map follows the engine: when the map entries are distinct positions of
  the engine chain, every row points after the move at the filter it pointed at before,
  and the rows' filters are permuted exactly as the descriptors are.
\<close>

lemma nth_after_removal:
  assumes "A < length fs" "E < length fs" "E \<noteq> A"
  shows "(take A fs @ drop (Suc A) fs) ! (if A < E then E - 1 else E) = fs ! E"
  using assms by (auto simp: nth_append min_def)

lemma nth_after_insertion:
  assumes "B \<le> length R" "E < length R"
  shows "(take B R @ x # drop B R) ! (if B \<le> E then Suc E else E) = R ! E"
  using assms by (auto simp: nth_append min_def nth_Cons')

lemma nth_inserted:
  assumes "B \<le> length R"
  shows "(take B R @ x # drop B R) ! B = x"
  using assms by (simp add: nth_append)

lemma move_filter_in_range:
  assumes "is_valid p" "0 \<le> a" "a < int (length (filters p))" "0 \<le> b"
    "b < int (length (filters p))" "a \<noteq> b"
  shows "filters (move_filter p a b) =
           take (nat b) (take (nat a) (filters p) @ drop (Suc (nat a)) (filters p))
             @ filters p ! nat a
             # drop (nat b) (take (nat a) (filters p) @ drop (Suc (nat a)) (filters p))"
  using assms
  by (simp add: move_filter_def clamp_position_def Let_def qinsert_conv qremoveAt_def)

lemma moved_filter_follows_entry:
  assumes "is_valid p" "0 \<le> a" "a < int (length (filters p))" "0 \<le> b"
    "b < int (length (filters p))" "a \<noteq> b"
    "0 \<le> e" "e < int (length (filters p))" "e \<noteq> a"
  shows "filters (move_filter p a b)
           ! nat (let e' = (if a < e then e - 1 else e) in if b \<le> e' then e' + 1 else e')
         = filters p ! nat e"
proof -
  let ?fs = "filters p"
  let ?R = "take (nat a) ?fs @ drop (Suc (nat a)) ?fs"
  let ?E' = "if nat a < nat e then nat e - 1 else nat e"
  have lenR: "length ?R = length ?fs - 1" using assms(2,3) by auto
  have E'lt: "?E' < length ?R" using assms lenR by auto
  have Ble: "nat b \<le> length ?R" using assms lenR by auto
  have idx: "nat (let e' = (if a < e then e - 1 else e) in if b \<le> e' then e' + 1 else e')
           = (if nat b \<le> ?E' then Suc ?E' else ?E')"
    using assms by (auto simp: Let_def)
  have "filters (move_filter p a b) ! (if nat b \<le> ?E' then Suc ?E' else ?E') = ?R ! ?E'"
    unfolding move_filter_in_range[OF assms(1-6)]
    by (rule nth_after_insertion[OF Ble E'lt])
  also have "\<dots> = ?fs ! nat e"
    using assms by (intro nth_after_removal) auto
  finally show ?thesis unfolding idx .
qed

lemma moved_filter_at_destination:
  assumes "is_valid p" "0 \<le> a" "a < int (length (filters p))" "0 \<le> b"
    "b < int (length (filters p))" "a \<noteq> b"
  shows "filters (move_filter p a b) ! nat b = filters p ! nat a"
  unfolding move_filter_in_range[OF assms]
  using assms by (intro nth_inserted) auto

lemma nth_not_in_rest:
  assumes "distinct M" "i < length M"
  shows "M ! i \<notin> set (take i M @ drop (Suc i) M)"
proof -
  have "M = take i M @ M ! i # drop (Suc i) M"
    using assms(2) by (rule id_take_nth_drop)
  then have "distinct (take i M @ M ! i # drop (Suc i) M)"
    using assms(1) by simp
  then show ?thesis by auto
qed

lemma map_inserted:
  "map F (take j X @ y # drop j X) = take j (map F X) @ F y # drop j (map F X)"
  by (simp add: take_map drop_map)

lemma moveRows_keeps_rows_on_their_filters:
  assumes "m_producer s = Some p" "is_valid p"
    "length (m_metaList s) = length (m_mltIndexMap s)"
    "i < length (m_mltIndexMap s)" "j < length (m_mltIndexMap s)" "i \<noteq> j"
    "distinct (m_mltIndexMap s)"
    "\<forall>e\<in>set (m_mltIndexMap s). 0 \<le> e \<and> e < int (length (filters p))"
  shows "\<exists>s' p'.
      moveRows s parent (int i) 1 parent (if i < j then int j + 1 else int j) = Inr (True, s')
    \<and> m_producer s' = Some p'
    \<and> map (\<lambda>e. filters p' ! nat e) (m_mltIndexMap s') =
        take j (take i (map (\<lambda>e. filters p ! nat e) (m_mltIndexMap s))
                 @ drop (Suc i) (map (\<lambda>e. filters p ! nat e) (m_mltIndexMap s)))
          @ filters p ! nat (m_mltIndexMap s ! i)
          # drop j (take i (map (\<lambda>e. filters p ! nat e) (m_mltIndexMap s))
                     @ drop (Suc i) (map (\<lambda>e. filters p ! nat e) (m_mltIndexMap s)))"
proof -
  let ?M = "m_mltIndexMap s"
  let ?a = "?M ! i" and ?b = "?M ! j"
  let ?rest = "take i ?M @ drop (Suc i) ?M"
  let ?g = "\<lambda>e. let e' = (if ?a < e then e - 1 else e) in if ?b \<le> e' then e' + 1 else e'"
  let ?p' = "move_filter p ?a ?b"
  have ain: "?a \<in> set ?M" and bin: "?b \<in> set ?M" using assms(4,5) by simp_all
  have ar: "0 \<le> ?a" "?a < int (length (filters p))" using ain assms(8) by blast+
  have br: "0 \<le> ?b" "?b < int (length (filters p))" using bin assms(8) by blast+
  have ab: "?a \<noteq> ?b" using assms(4,5,6,7) by (simp add: nth_eq_iff_index_eq)
  have rest_sub: "set ?rest \<subseteq> set ?M"
    using set_take_subset[of i ?M] set_drop_subset[of "Suc i" ?M] by auto
  have pointwise: "filters ?p' ! nat (?g e) = filters p ! nat e" if "e \<in> set ?rest" for e
  proof -
    from that rest_sub have "e \<in> set ?M" by blast
    then have er: "0 \<le> e" "e < int (length (filters p))" using assms(8) by blast+
    have "e \<noteq> ?a" using that nth_not_in_rest[OF assms(7,4)] by blast
    then show ?thesis
      by (intro moved_filter_follows_entry[OF assms(2) ar br ab er])
  qed
  have adj: "map (\<lambda>e. filters ?p' ! nat e) (map ?g ?rest) = map (\<lambda>e. filters p ! nat e) ?rest"
    using pointwise by (simp add: comp_def)
  have dest: "filters ?p' ! nat ?b = filters p ! nat ?a"
    by (rule moved_filter_at_destination[OF assms(2) ar br ab])
  have restmap: "map (\<lambda>e. filters p ! nat e) ?rest =
      take i (map (\<lambda>e. filters p ! nat e) ?M) @ drop (Suc i) (map (\<lambda>e. filters p ! nat e) ?M)"
    by (simp add: take_map drop_map)
  have "map (\<lambda>e. filters ?p' ! nat e) (take j (map ?g ?rest) @ ?b # drop j (map ?g ?rest))
      = take j (map (\<lambda>e. filters ?p' ! nat e) (map ?g ?rest)) @ filters ?p' ! nat ?b
          # drop j (map (\<lambda>e. filters ?p' ! nat e) (map ?g ?rest))"
    by (rule map_inserted)
  also have "\<dots> = take j (map (\<lambda>e. filters p ! nat e) ?rest) @ filters p ! nat ?a
          # drop j (map (\<lambda>e. filters p ! nat e) ?rest)"
    unfolding adj dest ..
  finally have key: "map (\<lambda>e. filters ?p' ! nat e) (take j (map ?g ?rest) @ ?b # drop j (map ?g ?rest))
      = take j (take i (map (\<lambda>e. filters p ! nat e) ?M) @ drop (Suc i) (map (\<lambda>e. filters p ! nat e) ?M))
          @ filters p ! nat ?a
          # drop j (take i (map (\<lambda>e. filters p ! nat e) ?M) @ drop (Suc i) (map (\<lambda>e. filters p ! nat e) ?M))"
    unfolding restmap .
  show ?thesis
    apply (rule exI, rule exI[where x = ?p'])
    apply (rule conjI, rule moveRows_valid[OF assms(1-6)])
    apply (rule conjI, simp)
    using key apply simp
    done
qed

text \<open>
  Claim C4. A valid single-row move takes the row \<open>i\<close> to the row \<open>j \<noteq> i\<close> (for
  \<open>moveRows\<close> the destination child is \<open>j + 1\<close> when moving down, which is what the
  convenience \<open>move\<close> passes). After the engine move from the source engine index to
  the destination engine index, the map is: the source row's entry removed; every
  remaining entry above the source engine index decremented; every entry that is then
  at or above the destination engine index incremented; the destination engine index
  inserted at row \<open>j\<close>. The descriptor moves from row \<open>i\<close> to row \<open>j\<close>. On
  \<open>[A(0), B(1), C(2)]\<close>, moving row 0 to row 2 gives the UI order \<open>[B, C, A]\<close>, the
  engine chain \<open>[B, C, A]\<close> and the map \<open>[0, 1, 2]\<close>.
\<close>

theorem moveRows_recomputes_index_map:
  "(m_producer s = Some p \<and> is_valid p
      \<and> length (m_metaList s) = length (m_mltIndexMap s)
      \<and> i < length (m_mltIndexMap s) \<and> j < length (m_mltIndexMap s) \<and> i \<noteq> j \<longrightarrow>
      (let mltSrc = m_mltIndexMap s ! i;
           mltDst = m_mltIndexMap s ! j;
           removed = take i (m_mltIndexMap s) @ drop (Suc i) (m_mltIndexMap s);
           adjusted = map (\<lambda>e. let e' = (if mltSrc < e then e - 1 else e)
                                in if mltDst \<le> e' then e' + 1 else e') removed;
           others = take i (m_metaList s) @ drop (Suc i) (m_metaList s);
           destinationRow = (if i < j then int j + 1 else int j);
           s' = s\<lparr>m_producer := Some (move_filter p mltSrc mltDst),
                  m_metaList := take j others @ m_metaList s ! i # drop j others,
                  m_mltIndexMap := take j adjusted @ mltDst # drop j adjusted,
                  emitted := emitted s @
                    [RowsAboutToBeMoved (int i) (int i) destinationRow, RowsMoved]\<rparr>
       in moveRows s parent (int i) 1 parent destinationRow = Inr (True, s')
          \<and> move s (int i) (int j) = Inr (True, s')))
   \<and> move scenario_ABC 0 2 =
       Inr (True, scenario_ABC
         \<lparr>m_producer := Some \<lparr>is_valid = True,
             filters = [new_filter videoB, new_filter videoC, new_filter videoA]\<rparr>,
          m_metaList := [Some videoB, Some videoC, Some videoA],
          m_mltIndexMap := [0, 1, 2],
          emitted := [RowsAboutToBeMoved 0 0 3, RowsMoved]\<rparr>)"
proof (intro conjI impI)
  assume h: "m_producer s = Some p \<and> is_valid p
      \<and> length (m_metaList s) = length (m_mltIndexMap s)
      \<and> i < length (m_mltIndexMap s) \<and> j < length (m_mltIndexMap s) \<and> i \<noteq> j"
  then have a: "m_producer s = Some p" "is_valid p"
    "length (m_metaList s) = length (m_mltIndexMap s)"
    "i < length (m_mltIndexMap s)" "j < length (m_mltIndexMap s)" "i \<noteq> j"
    by simp_all
  show "let mltSrc = m_mltIndexMap s ! i;
           mltDst = m_mltIndexMap s ! j;
           removed = take i (m_mltIndexMap s) @ drop (Suc i) (m_mltIndexMap s);
           adjusted = map (\<lambda>e. let e' = (if mltSrc < e then e - 1 else e)
                                in if mltDst \<le> e' then e' + 1 else e') removed;
           others = take i (m_metaList s) @ drop (Suc i) (m_metaList s);
           destinationRow = (if i < j then int j + 1 else int j);
           s' = s\<lparr>m_producer := Some (move_filter p mltSrc mltDst),
                  m_metaList := take j others @ m_metaList s ! i # drop j others,
                  m_mltIndexMap := take j adjusted @ mltDst # drop j adjusted,
                  emitted := emitted s @
                    [RowsAboutToBeMoved (int i) (int i) destinationRow, RowsMoved]\<rparr>
       in moveRows s parent (int i) 1 parent destinationRow = Inr (True, s')
          \<and> move s (int i) (int j) = Inr (True, s')"
    unfolding Let_def move_as_moveRows
    using moveRows_valid[OF a, of parent] moveRows_valid[OF a, of rootIndex]
    unfolding Let_def by (intro conjI)
next
  show "move scenario_ABC 0 2 =
       Inr (True, scenario_ABC
         \<lparr>m_producer := Some \<lparr>is_valid = True,
             filters = [new_filter videoB, new_filter videoC, new_filter videoA]\<rparr>,
          m_metaList := [Some videoB, Some videoC, Some videoA],
          m_mltIndexMap := [0, 1, 2],
          emitted := [RowsAboutToBeMoved 0 0 3, RowsMoved]\<rparr>)"
    by (rule scenario_move_BCA)
qed

theorem moveRows_recomputes_index_map_witness:
  "m_producer scenario_ABC
     = Some \<lparr>is_valid = True, filters = [new_filter videoA, new_filter videoB, new_filter videoC]\<rparr>
   \<and> is_valid \<lparr>is_valid = True, filters = [new_filter videoA, new_filter videoB, new_filter videoC]\<rparr>
   \<and> length (m_metaList scenario_ABC) = length (m_mltIndexMap scenario_ABC)
   \<and> (0::nat) < length (m_mltIndexMap scenario_ABC)
   \<and> (2::nat) < length (m_mltIndexMap scenario_ABC)
   \<and> (0::nat) \<noteq> 2
   \<and> moveRows scenario_ABC rootIndex 0 1 rootIndex 3 =
       Inr (True, scenario_ABC
         \<lparr>m_producer := Some \<lparr>is_valid = True,
             filters = [new_filter videoB, new_filter videoC, new_filter videoA]\<rparr>,
          m_metaList := [Some videoB, Some videoC, Some videoA],
          m_mltIndexMap := [0, 1, 2],
          emitted := [RowsAboutToBeMoved 0 0 3, RowsMoved]\<rparr>)"
  using moveRows_recomputes_index_map [of scenario_ABC
      "\<lparr>is_valid = True, filters = [new_filter videoA, new_filter videoB, new_filter videoC]\<rparr>"
      0 2 rootIndex]
  by (simp add: scenario_ABC_def Let_def move_filter_def clamp_position_def qinsert_def
      qremoveAt_def)

section \<open>The checkbox toggle\<close>

lemma getFilter_cases:
  "getFilter s row =
     (case m_producer s of
        None \<Rightarrow> Inr None
      | Some p \<Rightarrow>
          if \<not> is_valid p \<or> int (length (m_mltIndexMap s)) \<le> row then Inr None
          else if row < 0 then Inl IndexOutOfRange
          else Inr (producer_filter p (m_mltIndexMap s ! nat row)))"
  by (auto simp: getFilter_def qat_def split: option.splits)

text \<open>
  Claim C9. The checkbox toggle (\<open>setData\<close> with the check-state role) returns for every
  row that is not negative, and whenever it returns, the engine index map, the UI
  descriptor list and the pending drop row are what they were; the host keeps its
  validity and the length of its chain, and the only filter that differs is the one at
  the mapped engine index, whose \<open>disable\<close> flag is flipped.
\<close>

theorem toggleEnabled_keeps_structure:
  "(0 \<le> row \<longrightarrow> (\<exists>s'. setData s row CheckStateRole = Inr (True, s')))
   \<and> (\<forall>b s'. setData s row CheckStateRole = Inr (b, s') \<longrightarrow>
        m_mltIndexMap s' = m_mltIndexMap s \<and> m_metaList s' = m_metaList s
        \<and> m_dropRow s' = m_dropRow s
        \<and> (m_producer s = None \<longrightarrow> m_producer s' = None)
        \<and> (\<forall>p. m_producer s = Some p \<longrightarrow>
              (\<exists>p'. m_producer s' = Some p' \<and> is_valid p' = is_valid p
                  \<and> length (filters p') = length (filters p)
                  \<and> (\<forall>i. i < length (filters p) \<longrightarrow>
                        filters p' ! i =
                          (if is_valid p \<and> 0 \<le> row \<and> row < int (length (m_mltIndexMap s))
                               \<and> m_mltIndexMap s ! nat row = int i
                           then (filters p ! i)\<lparr>disable := (if disable (filters p ! i) = 0 then 1 else 0)\<rparr>
                           else filters p ! i)))))"
proof (intro conjI allI impI)
  assume "0 \<le> row"
  then show "\<exists>s'. setData s row CheckStateRole = Inr (True, s')"
    by (auto simp: setData_def getFilter_cases split: option.splits)
next
  fix b s' assume r: "setData s row CheckStateRole = Inr (b, s')"
  then show "m_mltIndexMap s' = m_mltIndexMap s"
    by (auto simp: setData_def split: option.splits sum.splits if_splits)
  from r show "m_metaList s' = m_metaList s"
    by (auto simp: setData_def split: option.splits sum.splits if_splits)
  from r show "m_dropRow s' = m_dropRow s"
    by (auto simp: setData_def split: option.splits sum.splits if_splits)
  { assume "m_producer s = None"
    with r show "m_producer s' = None"
      by (auto simp: setData_def getFilter_cases split: option.splits sum.splits if_splits) }
  { fix p assume p: "m_producer s = Some p"
    show "\<exists>p'. m_producer s' = Some p' \<and> is_valid p' = is_valid p
                  \<and> length (filters p') = length (filters p)
                  \<and> (\<forall>i. i < length (filters p) \<longrightarrow>
                        filters p' ! i =
                          (if is_valid p \<and> 0 \<le> row \<and> row < int (length (m_mltIndexMap s))
                               \<and> m_mltIndexMap s ! nat row = int i
                           then (filters p ! i)\<lparr>disable := (if disable (filters p ! i) = 0 then 1 else 0)\<rparr>
                           else filters p ! i))"
      using r p
      by (auto simp: setData_def getFilter_cases producer_filter_def set_disable_def
          get_disable_def nth_list_update split: option.splits sum.splits if_splits) }
qed

theorem toggleEnabled_keeps_structure_witness:
  "(0::int) \<le> 1
   \<and> setData scenario_ABC 1 CheckStateRole =
       Inr (True, scenario_ABC
         \<lparr>m_producer := Some \<lparr>is_valid = True,
             filters = [new_filter videoA, (new_filter videoB)\<lparr>disable := 1\<rparr>, new_filter videoC]\<rparr>,
          emitted := [Changed, DataChanged 1 1]\<rparr>)
   \<and> (\<exists>s'. setData scenario_ABC 1 CheckStateRole = Inr (True, s')
         \<and> m_mltIndexMap s' = m_mltIndexMap scenario_ABC
         \<and> m_metaList s' = m_metaList scenario_ABC)"
proof -
  have e: "setData scenario_ABC 1 CheckStateRole =
       Inr (True, scenario_ABC
         \<lparr>m_producer := Some \<lparr>is_valid = True,
             filters = [new_filter videoA, (new_filter videoB)\<lparr>disable := 1\<rparr>, new_filter videoC]\<rparr>,
          emitted := [Changed, DataChanged 1 1]\<rparr>)"
    by (simp add: setData_def getFilter_def qat_def producer_filter_def set_disable_def
        get_disable_def scenario_ABC_def new_filter_def)
  from toggleEnabled_keeps_structure [of 1 scenario_ABC] e
  have "\<exists>s'. setData scenario_ABC 1 CheckStateRole = Inr (True, s')
         \<and> m_mltIndexMap s' = m_mltIndexMap scenario_ABC
         \<and> m_metaList s' = m_metaList scenario_ABC"
    by blast
  with e show ?thesis by simp
qed

section \<open>The drag-and-drop adapter\<close>






end
